theory Spec2Isabelle
  imports Complex_Main
begin

section \<open>The code editor domain: language detection, text metrics, snippet validation\<close>

text \<open>
  A shallow embedding of \<^verbatim>\<open>src/domain/entities/CodeEditor.ts\<close>: the constant tables
  \<^verbatim>\<open>LANGUAGE_INFO\<close> and \<^verbatim>\<open>CODE_EDITOR_CONSTANTS\<close> and the static methods of
  \<^verbatim>\<open>CodeEditorUtils\<close>.

  Conventions of the embedding.
  \<^item> A JavaScript string is a list of UTF-16 code units. The model is over \<open>string\<close>, one
    \<open>char\<close> per code unit, so it covers the strings whose code units lie in U+0000..U+00FF
    (ASCII and Latin-1); \<open>length\<close> is \<^verbatim>\<open>.length\<close>.
  \<^item> A JavaScript number that holds an integer is an \<open>int\<close>. Where the code computes with
    fractions (\<^verbatim>\<open>toFixed\<close>, the product with \<^verbatim>\<open>0.7\<close>) the double arithmetic is written out
    on integers.
  \<^item> \<^verbatim>\<open>undefined\<close> is \<open>None\<close> (an absent optional argument or field) or the constructor
    \<open>Undefined\<close> (a failed property lookup).
  \<^item> The types of the TypeScript source are erased at run time: a \<^verbatim>\<open>ProgrammingLanguage\<close>
    is a string, and the accessors take any string.
\<close>

subsection \<open>JavaScript strings\<close>

text \<open>\<^verbatim>\<open>String.prototype.split(sep)\<close> for a separator of one code unit: the segments between
  the occurrences of the separator; the empty string gives one empty segment.\<close>

fun js_split :: "char \<Rightarrow> string \<Rightarrow> string list" where
  "js_split sep [] = [[]]"
| "js_split sep (c # cs) =
     (if c = sep then [] # js_split sep cs
      else (c # hd (js_split sep cs)) # tl (js_split sep cs))"

text \<open>\<^verbatim>\<open>Array.prototype.join(sep)\<close>.\<close>

fun js_join :: "string \<Rightarrow> string list \<Rightarrow> string" where
  "js_join sep [] = []"
| "js_join sep [x] = x"
| "js_join sep (x # y # ys) = x @ sep @ js_join sep (y # ys)"

text \<open>\<^verbatim>\<open>Array.prototype.pop()\<close>, for its value: the last element, \<^verbatim>\<open>undefined\<close> on an
  empty array.\<close>

definition pop :: "'a list \<Rightarrow> 'a option" where
  "pop xs = (if xs = [] then None else Some (last xs))"

text \<open>\<^verbatim>\<open>Array.prototype.slice(0, end)\<close>: a negative \<open>end\<close> counts from the end of the
  array.\<close>

definition slice0 :: "'a list \<Rightarrow> int \<Rightarrow> 'a list" where
  "slice0 xs e = (if e < 0 then take (nat (int (length xs) + e)) xs else take (nat e) xs)"

text \<open>\<^verbatim>\<open>String.prototype.substring(0, end)\<close>: \<open>end\<close> is clamped to the range from 0 to the
  length.\<close>

definition substring0 :: "string \<Rightarrow> int \<Rightarrow> string" where
  "substring0 s e = take (nat e) s"

text \<open>\<^verbatim>\<open>String.prototype.lastIndexOf(c)\<close> for one code unit: the offset of its last
  occurrence, \<open>-1\<close> when there is none.\<close>

fun lastIndexOf :: "string \<Rightarrow> char \<Rightarrow> int" where
  "lastIndexOf [] c = -1"
| "lastIndexOf (x # xs) c =
     (let r = lastIndexOf xs c
      in if r \<ge> 0 then r + 1 else if x = c then 0 else -1)"

text \<open>\<^verbatim>\<open>String.prototype.toLowerCase()\<close>: in U+0000..U+00FF the code units with a lower-case
  form are A..Z and U+00C0..U+00DE without the multiplication sign U+00D7; the lower-case
  form is 32 higher.\<close>

definition toLowerCase_unit :: "char \<Rightarrow> char" where
  "toLowerCase_unit c =
     (let n = of_char c :: nat
      in if (65 \<le> n \<and> n \<le> 90) \<or> (192 \<le> n \<and> n \<le> 222 \<and> n \<noteq> 215)
         then char_of (n + 32) else c)"

definition toLowerCase :: "string \<Rightarrow> string" where
  "toLowerCase s = map toLowerCase_unit s"

text \<open>\<^verbatim>\<open>String.prototype.toUpperCase()\<close> on ASCII text (the specification applies it to
  the extension tokens, which are ASCII): a..z become A..Z.\<close>

definition toUpperCase_unit :: "char \<Rightarrow> char" where
  "toUpperCase_unit c =
     (let n = of_char c :: nat
      in if 97 \<le> n \<and> n \<le> 122 then char_of (n - 32) else c)"

definition toUpperCase :: "string \<Rightarrow> string" where
  "toUpperCase s = map toUpperCase_unit s"

text \<open>\<^verbatim>\<open>String.prototype.trim()\<close> removes white space and line terminators from both ends.
  In U+0000..U+00FF these are tab, line feed, vertical tab, form feed, carriage return,
  space and the no-break space U+00A0.\<close>

definition isWhiteSpace :: "char \<Rightarrow> bool" where
  "isWhiteSpace c = (of_char c \<in> set [9, 10, 11, 12, 13, 32, 160 :: nat])"

definition trim :: "string \<Rightarrow> string" where
  "trim s = rev (dropWhile isWhiteSpace (rev (dropWhile isWhiteSpace s)))"

text \<open>The \<^verbatim>\<open>||\<close> of an optional string and a string: the left operand unless it is
  \<^verbatim>\<open>undefined\<close> or empty (the falsy strings).\<close>

definition or_else :: "string option \<Rightarrow> string \<Rightarrow> string" where
  "or_else v d = (case v of None \<Rightarrow> d | Some s \<Rightarrow> if s = [] then d else s)"

subsection \<open>Property lookup on an object literal\<close>

text \<open>
  \<^verbatim>\<open>LANGUAGE_INFO\<close> and \<^verbatim>\<open>languageMap\<close> are object literals, so their prototype is
  \<^verbatim>\<open>Object.prototype\<close>, and \<^verbatim>\<open>obj[key]\<close> finds an own property first and a property of
  the prototype next. The result of a lookup is an own value of the table, a built-in
  function (of which only its \<^verbatim>\<open>name\<close> matters here), the prototype object itself (what
  \<^verbatim>\<open>obj['__proto__']\<close> is), or \<^verbatim>\<open>undefined\<close>.
\<close>

datatype 'a js_value = Undefined | Own 'a | Builtin string | ObjectPrototype

text \<open>The function-valued properties of \<^verbatim>\<open>Object.prototype\<close> other than
  \<^verbatim>\<open>constructor\<close>; the name of each function is its key.\<close>

definition Object_prototype_methods :: "string list" where
  "Object_prototype_methods =
     [''hasOwnProperty'', ''isPrototypeOf'', ''propertyIsEnumerable'', ''toLocaleString'',
      ''toString'', ''valueOf'', ''__defineGetter__'', ''__defineSetter__'',
      ''__lookupGetter__'', ''__lookupSetter__'']"

text \<open>\<^verbatim>\<open>Object.prototype[key]\<close>: \<^verbatim>\<open>constructor\<close> is the function \<^verbatim>\<open>Object\<close>, whose
  name is "Object".\<close>

definition Object_prototype_get :: "string \<Rightarrow> 'a js_value" where
  "Object_prototype_get key =
     (if key = ''constructor'' then Builtin ''Object''
      else if key = ''__proto__'' then ObjectPrototype
      else if key \<in> set Object_prototype_methods then Builtin key
      else Undefined)"

text \<open>\<^verbatim>\<open>obj[key]\<close> for an object literal with the own properties \<open>obj\<close>.\<close>

definition js_get :: "(string \<times> 'a) list \<Rightarrow> string \<Rightarrow> 'a js_value" where
  "js_get obj key =
     (case map_of obj key of Some v \<Rightarrow> Own v | None \<Rightarrow> Object_prototype_get key)"

subsection \<open>Types and constants\<close>

text \<open>The members of the union type \<^verbatim>\<open>ProgrammingLanguage\<close>, in the order of the source.\<close>

definition ProgrammingLanguage :: "string list" where
  "ProgrammingLanguage =
     [''typescript'', ''javascript'', ''python'', ''java'', ''csharp'', ''cpp'', ''c'',
      ''swift'', ''kotlin'', ''go'', ''rust'', ''php'', ''ruby'', ''html'', ''css'',
      ''scss'', ''json'', ''xml'', ''yaml'', ''markdown'', ''sql'', ''bash'', ''shell'',
      ''dockerfile'', ''plaintext'']"

record language_info =
  name :: string
  extension :: string
  icon :: string

definition LANGUAGE_INFO :: "(string \<times> language_info) list" where
  "LANGUAGE_INFO =
     [(''typescript'', \<lparr>name = ''TypeScript'', extension = ''.ts'', icon = ''FileCode''\<rparr>),
      (''javascript'', \<lparr>name = ''JavaScript'', extension = ''.js'', icon = ''FileCode''\<rparr>),
      (''python'', \<lparr>name = ''Python'', extension = ''.py'', icon = ''FileCode''\<rparr>),
      (''java'', \<lparr>name = ''Java'', extension = ''.java'', icon = ''FileCode''\<rparr>),
      (''csharp'', \<lparr>name = ''C#'', extension = ''.cs'', icon = ''FileCode''\<rparr>),
      (''cpp'', \<lparr>name = ''C++'', extension = ''.cpp'', icon = ''FileCode''\<rparr>),
      (''c'', \<lparr>name = ''C'', extension = ''.c'', icon = ''FileCode''\<rparr>),
      (''swift'', \<lparr>name = ''Swift'', extension = ''.swift'', icon = ''FileCode''\<rparr>),
      (''kotlin'', \<lparr>name = ''Kotlin'', extension = ''.kt'', icon = ''FileCode''\<rparr>),
      (''go'', \<lparr>name = ''Go'', extension = ''.go'', icon = ''FileCode''\<rparr>),
      (''rust'', \<lparr>name = ''Rust'', extension = ''.rs'', icon = ''FileCode''\<rparr>),
      (''php'', \<lparr>name = ''PHP'', extension = ''.php'', icon = ''FileCode''\<rparr>),
      (''ruby'', \<lparr>name = ''Ruby'', extension = ''.rb'', icon = ''FileCode''\<rparr>),
      (''html'', \<lparr>name = ''HTML'', extension = ''.html'', icon = ''FileCode''\<rparr>),
      (''css'', \<lparr>name = ''CSS'', extension = ''.css'', icon = ''FileCode''\<rparr>),
      (''scss'', \<lparr>name = ''SCSS'', extension = ''.scss'', icon = ''FileCode''\<rparr>),
      (''json'', \<lparr>name = ''JSON'', extension = ''.json'', icon = ''Braces''\<rparr>),
      (''xml'', \<lparr>name = ''XML'', extension = ''.xml'', icon = ''FileCode''\<rparr>),
      (''yaml'', \<lparr>name = ''YAML'', extension = ''.yaml'', icon = ''FileCode''\<rparr>),
      (''markdown'', \<lparr>name = ''Markdown'', extension = ''.md'', icon = ''FileText''\<rparr>),
      (''sql'', \<lparr>name = ''SQL'', extension = ''.sql'', icon = ''Database''\<rparr>),
      (''bash'', \<lparr>name = ''Bash'', extension = ''.sh'', icon = ''Terminal''\<rparr>),
      (''shell'', \<lparr>name = ''Shell'', extension = ''.sh'', icon = ''Terminal''\<rparr>),
      (''dockerfile'', \<lparr>name = ''Dockerfile'', extension = ''Dockerfile'', icon = ''Box''\<rparr>),
      (''plaintext'', \<lparr>name = ''Plain Text'', extension = ''.txt'', icon = ''FileText''\<rparr>)]"

text \<open>The two entries of \<^verbatim>\<open>CODE_EDITOR_CONSTANTS\<close> that the utilities read.\<close>

definition MAX_CODE_LENGTH :: int where
  "MAX_CODE_LENGTH = 50000"

definition PREVIEW_LENGTH :: int where
  "PREVIEW_LENGTH = 150"

subsection \<open>Language detection\<close>

text \<open>The table local to \<^verbatim>\<open>detectLanguage\<close>.\<close>

definition languageMap :: "(string \<times> string) list" where
  "languageMap =
     [(''ts'', ''typescript''), (''tsx'', ''typescript''), (''js'', ''javascript''),
      (''jsx'', ''javascript''), (''py'', ''python''), (''java'', ''java''),
      (''cs'', ''csharp''), (''cpp'', ''cpp''), (''cc'', ''cpp''), (''c'', ''c''),
      (''h'', ''c''), (''swift'', ''swift''), (''kt'', ''kotlin''), (''go'', ''go''),
      (''rs'', ''rust''), (''php'', ''php''), (''rb'', ''ruby''), (''html'', ''html''),
      (''htm'', ''html''), (''css'', ''css''), (''scss'', ''scss''), (''sass'', ''scss''),
      (''json'', ''json''), (''xml'', ''xml''), (''yaml'', ''yaml''), (''yml'', ''yaml''),
      (''md'', ''markdown''), (''sql'', ''sql''), (''sh'', ''bash''), (''bash'', ''bash''),
      (''dockerfile'', ''dockerfile''), (''txt'', ''plaintext'')]"

text \<open>
  \<^verbatim>\<open>const ext = filename.toLowerCase().split('.').pop() || '';\<close>
  \<^verbatim>\<open>return languageMap[ext] || 'plaintext';\<close>
  Every value that a lookup finds is truthy but the empty string, so the fallback applies
  to \<^verbatim>\<open>undefined\<close> only; a built-in found on the prototype is returned as it is.
\<close>

definition detectLanguage :: "string \<Rightarrow> string js_value" where
  "detectLanguage filename =
     (let ext = or_else (pop (js_split CHR ''.'' (toLowerCase filename))) []
      in case js_get languageMap ext of
           Undefined \<Rightarrow> Own ''plaintext''
         | Own l \<Rightarrow> if l = [] then Own ''plaintext'' else Own l
         | v \<Rightarrow> v)"

subsection \<open>Language metadata accessors\<close>

text \<open>
  Reading a property of a value throws a \<^verbatim>\<open>TypeError\<close> when the value is
  \<^verbatim>\<open>undefined\<close>. An entry of \<^verbatim>\<open>LANGUAGE_INFO\<close> has the three properties of its record; a
  built-in function has a \<^verbatim>\<open>name\<close> and neither an \<^verbatim>\<open>extension\<close> nor an \<^verbatim>\<open>icon\<close>;
  \<^verbatim>\<open>Object.prototype\<close> has none of the three.
\<close>

datatype js_error = TypeError

datatype info_key = Name | Extension | Icon

definition get_property :: "language_info js_value \<Rightarrow> info_key \<Rightarrow> js_error + string option" where
  "get_property v key =
     (case v of
        Undefined \<Rightarrow> Inl TypeError
      | Own r \<Rightarrow> Inr (Some (case key of Name \<Rightarrow> name r | Extension \<Rightarrow> extension r | Icon \<Rightarrow> icon r))
      | Builtin n \<Rightarrow> Inr (case key of Name \<Rightarrow> Some n | Extension \<Rightarrow> None | Icon \<Rightarrow> None)
      | ObjectPrototype \<Rightarrow> Inr None)"

text \<open>The optional chaining \<^verbatim>\<open>v?.key\<close>: \<^verbatim>\<open>undefined\<close> when \<open>v\<close> is, the property
  otherwise.\<close>

definition optional_chain :: "language_info js_value \<Rightarrow> info_key \<Rightarrow> js_error + string option" where
  "optional_chain v key = (case v of Undefined \<Rightarrow> Inr None | _ \<Rightarrow> get_property v key)"

text \<open>\<^verbatim>\<open>return LANGUAGE_INFO[language]?.icon || 'FileCode';\<close>\<close>

definition getLanguageIcon :: "string \<Rightarrow> js_error + string" where
  "getLanguageIcon language =
     (case optional_chain (js_get LANGUAGE_INFO language) Icon of
        Inl e \<Rightarrow> Inl e
      | Inr v \<Rightarrow> Inr (or_else v ''FileCode''))"

text \<open>\<^verbatim>\<open>return LANGUAGE_INFO[language]?.name || language;\<close>\<close>

definition getLanguageName :: "string \<Rightarrow> js_error + string" where
  "getLanguageName language =
     (case optional_chain (js_get LANGUAGE_INFO language) Name of
        Inl e \<Rightarrow> Inl e
      | Inr v \<Rightarrow> Inr (or_else v language))"

text \<open>\<^verbatim>\<open>return LANGUAGE_INFO[language]?.extension || '.txt';\<close>\<close>

definition getFileExtension :: "string \<Rightarrow> js_error + string" where
  "getFileExtension language =
     (case optional_chain (js_get LANGUAGE_INFO language) Extension of
        Inl e \<Rightarrow> Inl e
      | Inr v \<Rightarrow> Inr (or_else v ''.txt''))"

subsection \<open>Text metrics\<close>

text \<open>\<^verbatim>\<open>if (!code) return 0; return code.split('\n').length;\<close>\<close>

definition countLines :: "string \<Rightarrow> int" where
  "countLines code = (if code = [] then 0 else int (length (js_split CHR ''\<newline>'' code)))"

definition countCharacters :: "string \<Rightarrow> int" where
  "countCharacters code = int (length code)"

definition isValidLength :: "string \<Rightarrow> bool" where
  "isValidLength code = (int (length code) \<le> MAX_CODE_LENGTH)"

text \<open>The decimal digits of a natural number.\<close>

fun digits :: "nat \<Rightarrow> string" where
  "digits n = (if n < 10 then [char_of (48 + n)] else digits (n div 10) @ [char_of (48 + n mod 10)])"

declare digits.simps [simp del]

text \<open>The string of an integer-valued number, as a template literal renders it.\<close>

definition Number_toString :: "int \<Rightarrow> string" where
  "Number_toString i = (if i < 0 then CHR ''-'' # digits (nat (- i)) else digits (nat i))"

text \<open>
  \<^verbatim>\<open>(p / q).toFixed(1)\<close> for an integer \<open>p\<close> and a power of two \<open>q\<close>. The quotient is exact in
  double arithmetic for \<open>p\<close> below \<open>2^53\<close>. \<^verbatim>\<open>Number.prototype.toFixed\<close> takes the integer
  \<open>n\<close> for which \<open>n / 10\<close> is nearest to the absolute value, the larger of two such, and
  prints the digits of \<open>n\<close> with the decimal point before the last one (values below
  \<open>10^21\<close>).
\<close>

definition toFixed1 :: "int \<Rightarrow> int \<Rightarrow> string" where
  "toFixed1 p q =
     (let n = (20 * \<bar>p\<bar> + q) div (2 * q);
          s = digits (nat (n div 10)) @ ''.'' @ digits (nat (n mod 10))
      in if p < 0 then CHR ''-'' # s else s)"

text \<open>
  \<^verbatim>\<open>if (bytes < 1024) return `${bytes} B`;\<close>
  \<^verbatim>\<open>if (bytes < 1024 * 1024) return `${(bytes / 1024).toFixed(1)} KB`;\<close>
  \<^verbatim>\<open>return `${(bytes / (1024 * 1024)).toFixed(1)} MB`;\<close>
\<close>

definition formatFileSize :: "int \<Rightarrow> string" where
  "formatFileSize bytes =
     (if bytes < 1024 then Number_toString bytes @ '' B''
      else if bytes < 1024 * 1024 then toFixed1 bytes 1024 @ '' KB''
      else toFixed1 bytes (1024 * 1024) @ '' MB'')"

subsection \<open>Preview and truncation\<close>

text \<open>
  The comparison \<^verbatim>\<open>lastNewline > maxLength * 0.7\<close> is one of doubles. The literal
  \<^verbatim>\<open>0.7\<close> is the double \<open>6305039478318694 / 2^53\<close>, a little below seven tenths. The
  product of an integer with it is rounded to 53 significant bits, ties to the even
  neighbour. All values are kept as integers in units of \<open>2^-53\<close>.
\<close>

fun bit_length :: "nat \<Rightarrow> nat" where
  "bit_length n = (if n = 0 then 0 else Suc (bit_length (n div 2)))"

declare bit_length.simps [simp del]

definition DOUBLE_0_7 :: nat where
  "DOUBLE_0_7 = 6305039478318694"

definition round_to_double :: "nat \<Rightarrow> nat" where
  "round_to_double a =
     (let b = bit_length a
      in if b \<le> 53 then a
         else let s = b - 53; q = a div 2 ^ s; r = a mod 2 ^ s
              in (if 2 * r > 2 ^ s \<or> (2 * r = 2 ^ s \<and> odd q) then q + 1 else q) * 2 ^ s)"

text \<open>\<^verbatim>\<open>m * 0.7\<close>, in units of \<open>2^-53\<close>.\<close>

definition times_0_7 :: "int \<Rightarrow> int" where
  "times_0_7 m = sgn m * int (round_to_double (nat \<bar>m\<bar> * DOUBLE_0_7))"

text \<open>\<^verbatim>\<open>p > m * 0.7\<close> for integers \<open>p\<close> and \<open>m\<close>.\<close>

definition gt_times_0_7 :: "int \<Rightarrow> int \<Rightarrow> bool" where
  "gt_times_0_7 p m = (times_0_7 m < p * 2 ^ 53)"

text \<open>
  \<^verbatim>\<open>formatForDisplay(code, maxLength = CODE_EDITOR_CONSTANTS.PREVIEW_LENGTH)\<close>; an absent
  second argument is \<open>None\<close>.
\<close>

definition formatForDisplay :: "string \<Rightarrow> int option \<Rightarrow> string" where
  "formatForDisplay code maxLength_arg =
     (let maxLength = (case maxLength_arg of None \<Rightarrow> PREVIEW_LENGTH | Some m \<Rightarrow> m)
      in if int (length code) \<le> maxLength then code
         else let truncated = substring0 code maxLength;
                  lastNewline = lastIndexOf truncated CHR ''\<newline>''
              in if gt_times_0_7 lastNewline maxLength
                 then substring0 truncated lastNewline @ ''\<newline>...''
                 else truncated @ ''...'')"

text \<open>
  The same function in the words of the specification, the threshold being seven tenths
  of \<open>maxLength\<close> as a real number: for comparison with the code.
\<close>

definition formatForDisplay_spec :: "string \<Rightarrow> int \<Rightarrow> string" where
  "formatForDisplay_spec code maxLength =
     (if int (length code) \<le> maxLength then code
      else let t = take (nat maxLength) code; p = lastIndexOf t CHR ''\<newline>''
           in if real_of_int p > 0.7 * real_of_int maxLength
              then take (nat p) code @ ''\<newline>...''
              else t @ ''...'')"

text \<open>\<^verbatim>\<open>getCodePreview(code, lines = 3)\<close>; an absent second argument is \<open>None\<close>.\<close>

definition getCodePreview :: "string \<Rightarrow> int option \<Rightarrow> string" where
  "getCodePreview code lines_arg =
     (let lines = (case lines_arg of None \<Rightarrow> 3 | Some n \<Rightarrow> n);
          codeLines = js_split CHR ''\<newline>'' code;
          preview = js_join ''\<newline>'' (slice0 codeLines lines)
      in if int (length codeLines) > lines then preview @ ''\<newline>...'' else preview)"

subsection \<open>Snippet validation\<close>

text \<open>\<^verbatim>\<open>Partial<CodeSnippet>\<close>: every field may be absent. A \<^verbatim>\<open>Date\<close> is its time value
  in milliseconds.\<close>

record CodeSnippet =
  id' :: "string option"
  title :: "string option"
  description :: "string option"
  code :: "string option"
  language :: "string option"
  category :: "string option"
  tags :: "string list option"
  isFavorite :: "bool option"
  createdAt :: "int option"
  updatedAt :: "int option"
  usageCount :: "int option"

text \<open>The object \<^verbatim>\<open>{}\<close>.\<close>

definition empty_snippet :: CodeSnippet where
  "empty_snippet =
     \<lparr>id' = None, title = None, description = None, code = None, language = None,
      category = None, tags = None, isFavorite = None, createdAt = None, updatedAt = None,
      usageCount = None\<rparr>"

record validation =
  valid :: bool
  errors :: "string list"

text \<open>
  \<^verbatim>\<open>!snippet.title?.trim()\<close> holds when the field is absent or blank after trimming;
  \<^verbatim>\<open>snippet.code && ...\<close> asks for a present, non-empty code. Each \<^verbatim>\<open>errors.push\<close>
  appends to the list.
\<close>

definition validateSnippet :: "CodeSnippet \<Rightarrow> validation" where
  "validateSnippet snippet =
     (let errors = [];
          errors = (if or_else (map_option trim (title snippet)) [] = []
                    then errors @ [''Title is required''] else errors);
          errors = (if or_else (map_option trim (code snippet)) [] = []
                    then errors @ [''Code is required''] else errors);
          errors = (if (case code snippet of None \<Rightarrow> False
                        | Some c \<Rightarrow> c \<noteq> [] \<and> \<not> isValidLength c)
                    then errors @ [''Code exceeds maximum length of '' @ formatFileSize MAX_CODE_LENGTH]
                    else errors)
      in \<lparr>valid = (length errors = 0), errors = errors\<rparr>)"

subsection \<open>Notions of the specification\<close>

text \<open>\<^verbatim>\<open>Number.MAX_SAFE_INTEGER\<close>: up to it every integer is a double, and the model of the
  numbers as integers is exact.\<close>

definition MAX_SAFE_INTEGER :: int where
  "MAX_SAFE_INTEGER = 2 ^ 53 - 1"

text \<open>A non-negative real number rounded to one decimal place, a tie going up, in decimal
  notation: the specification's "one decimal place".\<close>

definition one_decimal :: "real \<Rightarrow> string" where
  "one_decimal x =
     (let n = nat \<lfloor>10 * x + 1 / 2\<rfloor>
      in digits (n div 10) @ ''.'' @ digits (n mod 10))"

text \<open>The number that a string of decimal digits denotes.\<close>

definition decimal_value :: "string \<Rightarrow> nat" where
  "decimal_value s = foldl (\<lambda>a c. 10 * a + (of_char c - 48)) 0 s"

section \<open>Properties\<close>

subsection \<open>Evaluation of characters\<close>

lemma char_of_nat_bits:
  "char_of (n::nat) =
     Char (odd n) (odd (n div 2)) (odd (n div 4)) (odd (n div 8))
          (odd (n div 16)) (odd (n div 32)) (odd (n div 64)) (odd (n div 128))"
  by (simp add: char_of_def bit_iff_odd)

subsection \<open>Splitting and joining\<close>

lemma js_split_not_Nil [simp]: "js_split sep s \<noteq> []"
  by (induction s) auto

lemma length_js_split: "length (js_split sep s) = Suc (count_list s sep)"
proof (induction s)
  case Nil
  show ?case by simp
next
  case (Cons c cs)
  have "length (tl (js_split sep cs)) = count_list cs sep"
    using Cons.IH by simp
  then show ?case using Cons.IH by simp
qed

lemma js_join_Cons: "xs \<noteq> [] \<Longrightarrow> js_join sep (x # xs) = x @ sep @ js_join sep xs"
  by (cases xs) auto

lemma js_join_hd_Cons:
  assumes "xs \<noteq> []"
  shows "js_join sep ((c # hd xs) # tl xs) = c # js_join sep xs"
proof (cases xs)
  case Nil
  then show ?thesis using assms by simp
next
  case (Cons y ys)
  then show ?thesis by (cases ys) auto
qed

text \<open>Joining the segments with the separator gives the string back, and no segment holds
  the separator: \<open>js_split\<close> is the segmentation at the separators.\<close>

lemma js_join_js_split: "js_join [sep] (js_split sep s) = s"
proof (induction s)
  case Nil
  show ?case by simp
next
  case (Cons c cs)
  show ?case
  proof (cases "c = sep")
    case True
    then show ?thesis using Cons.IH by (simp add: js_join_Cons)
  next
    case False
    then show ?thesis using Cons.IH by (simp add: js_join_hd_Cons)
  qed
qed

lemma js_split_segments: "seg \<in> set (js_split sep s) \<Longrightarrow> sep \<notin> set seg"
proof (induction s arbitrary: seg)
  case Nil
  then show ?case by simp
next
  case (Cons c cs)
  obtain x xs where x: "js_split sep cs = x # xs"
    by (cases "js_split sep cs") auto
  show ?case
  proof (cases "c = sep")
    case True
    then show ?thesis using Cons by auto
  next
    case False
    then show ?thesis using Cons x by auto
  qed
qed

lemma js_split_no_sep: "sep \<notin> set s \<Longrightarrow> js_split sep s = [s]"
  by (induction s) auto

lemma last_js_split_append: "sep \<notin> set u \<Longrightarrow> last (js_split sep (xs @ sep # u)) = u"
proof (induction xs)
  case Nil
  then show ?case by (simp add: js_split_no_sep)
next
  case (Cons c cs)
  obtain y ys where y: "js_split sep (cs @ sep # u) = y # ys"
    by (cases "js_split sep (cs @ sep # u)") auto
  have "ys \<noteq> []"
    using length_js_split[of sep "cs @ sep # u"] y by auto
  then show ?case using Cons y by auto
qed

subsection \<open>Language detection\<close>

lemmas detect_eval = toLowerCase_def toLowerCase_unit_def toUpperCase_def toUpperCase_unit_def
  pop_def or_else_def js_get_def Object_prototype_get_def Object_prototype_methods_def
  languageMap_def detectLanguage_def char_of_nat_bits

text \<open>Lower-casing leaves no upper-case ASCII letter and makes no full stop.\<close>

lemma toLowerCase_unit_not_upper:
  "\<not> (65 \<le> (of_char (toLowerCase_unit c) :: nat) \<and> (of_char (toLowerCase_unit c) :: nat) \<le> 90)"
  by (auto simp add: toLowerCase_unit_def Let_def)

lemma toLowerCase_unit_dot: "toLowerCase_unit c = CHR ''.'' \<longleftrightarrow> c = CHR ''.''"
proof
  assume a: "toLowerCase_unit c = CHR ''.''"
  show "c = CHR ''.''"
  proof (rule ccontr)
    assume n: "c \<noteq> CHR ''.''"
    have "(of_char (toLowerCase_unit c) :: nat) = 46" using a by simp
    then have "toLowerCase_unit c = c"
      by (auto simp add: toLowerCase_unit_def Let_def split: if_splits)
    then show False using a n by simp
  qed
next
  assume "c = CHR ''.''"
  then show "toLowerCase_unit c = CHR ''.''" by (simp add: toLowerCase_unit_def)
qed

lemma toLowerCase_no_dot:
  assumes "CHR ''.'' \<notin> set s"
  shows "CHR ''.'' \<notin> set (toLowerCase s)"
proof
  assume "CHR ''.'' \<in> set (toLowerCase s)"
  then obtain x where "x \<in> set s" and "toLowerCase_unit x = CHR ''.''"
    by (auto simp add: toLowerCase_def)
  then show False using assms by (simp add: toLowerCase_unit_dot)
qed

lemma toLowerCase_no_upper:
  "c \<in> set (toLowerCase s) \<Longrightarrow> \<not> (65 \<le> (of_char c :: nat) \<and> (of_char c :: nat) \<le> 90)"
  using toLowerCase_unit_not_upper by (auto simp add: toLowerCase_def)

text \<open>So the lower-cased token is none of the methods of \<^verbatim>\<open>Object.prototype\<close>, whose names
  have a capital letter each.\<close>

lemma toLowerCase_not_method: "toLowerCase s \<notin> set Object_prototype_methods"
proof
  assume "toLowerCase s \<in> set Object_prototype_methods"
  then consider "CHR ''O'' \<in> set (toLowerCase s)" | "CHR ''P'' \<in> set (toLowerCase s)"
    | "CHR ''I'' \<in> set (toLowerCase s)" | "CHR ''L'' \<in> set (toLowerCase s)"
    | "CHR ''S'' \<in> set (toLowerCase s)" | "CHR ''G'' \<in> set (toLowerCase s)"
    by (auto simp add: Object_prototype_methods_def)
  then show False
    by cases (auto dest: toLowerCase_no_upper)
qed

text \<open>The token looked up is the last segment of the lower-cased file name.\<close>

lemma detectLanguage_token:
  "detectLanguage filename =
     (case js_get languageMap (last (js_split CHR ''.'' (toLowerCase filename))) of
        Undefined \<Rightarrow> Own ''plaintext'' | v \<Rightarrow> v)"
proof -
  have "or_else (pop (js_split CHR ''.'' (toLowerCase filename))) [] =
        last (js_split CHR ''.'' (toLowerCase filename))"
    by (simp add: pop_def or_else_def)
  moreover have "map_of languageMap k \<noteq> Some []" for k
    by (auto simp add: languageMap_def split: if_splits)
  ultimately show ?thesis
    by (auto simp add: detectLanguage_def Let_def js_get_def Object_prototype_get_def
        split: js_value.splits option.splits)
qed

text \<open>
  C1, as the specification states it: for every file name without a full stop the trailing
  token is the empty string and \<open>detectLanguage\<close> returns "plaintext". The split of such a
  name has one segment, the whole name, so the file name "ts" is looked up as the token "ts".
\<close>

theorem detectLanguage_no_dot_counterexample:
  "CHR ''.'' \<notin> set ''ts'' \<and> detectLanguage ''ts'' = Own ''typescript''
   \<and> detectLanguage ''ts'' \<noteq> Own ''plaintext''"
  by (simp add: detect_eval)

text \<open>
  C1, amended: for every file name without a full stop the trailing token is the whole
  lower-cased file name; \<open>detectLanguage\<close> returns "plaintext" when that token has no entry in
  the extension map (and is neither "constructor" nor "__proto__", which the map object
  inherits), and the mapped language when it has one. \<open>detectLanguage "no_extension"\<close> and
  \<open>detectLanguage ""\<close> are "plaintext".
\<close>

theorem detectLanguage_no_dot:
  assumes "CHR ''.'' \<notin> set filename"
  shows "pop (js_split CHR ''.'' (toLowerCase filename)) = Some (toLowerCase filename)
    \<and> (map_of languageMap (toLowerCase filename) = None \<longrightarrow>
         toLowerCase filename \<noteq> ''constructor'' \<longrightarrow> toLowerCase filename \<noteq> ''__proto__'' \<longrightarrow>
         detectLanguage filename = Own ''plaintext'')
    \<and> (\<forall>l. map_of languageMap (toLowerCase filename) = Some l \<longrightarrow> detectLanguage filename = Own l)
    \<and> detectLanguage ''no_extension'' = Own ''plaintext''
    \<and> detectLanguage '''' = Own ''plaintext''"
proof -
  have s: "js_split CHR ''.'' (toLowerCase filename) = [toLowerCase filename]"
    using assms by (simp add: toLowerCase_no_dot js_split_no_sep)
  have a: "pop (js_split CHR ''.'' (toLowerCase filename)) = Some (toLowerCase filename)"
    by (simp add: s pop_def)
  have t: "detectLanguage filename =
     (case js_get languageMap (toLowerCase filename) of Undefined \<Rightarrow> Own ''plaintext'' | v \<Rightarrow> v)"
    by (simp add: detectLanguage_token s)
  have b: "detectLanguage filename = Own ''plaintext''"
    if "map_of languageMap (toLowerCase filename) = None"
      and "toLowerCase filename \<noteq> ''constructor''" and "toLowerCase filename \<noteq> ''__proto__''"
    using that toLowerCase_not_method[of filename]
    by (simp add: t js_get_def Object_prototype_get_def)
  have c: "detectLanguage filename = Own l"
    if "map_of languageMap (toLowerCase filename) = Some l" for l
    using that by (simp add: t js_get_def)
  have d: "detectLanguage ''no_extension'' = Own ''plaintext''"
    by (simp add: detect_eval)
  have e: "detectLanguage '''' = Own ''plaintext''"
    by (simp add: detect_eval)
  from a b c d e show ?thesis by blast
qed

theorem detectLanguage_no_dot_witness:
  "CHR ''.'' \<notin> set ''Makefile'' \<and> map_of languageMap (toLowerCase ''Makefile'') = None
   \<and> toLowerCase ''Makefile'' = ''makefile''
   \<and> detectLanguage ''Makefile'' = Own ''plaintext''
   \<and> CHR ''.'' \<notin> set ''Dockerfile''
   \<and> map_of languageMap (toLowerCase ''Dockerfile'') = Some ''dockerfile''
   \<and> detectLanguage ''Dockerfile'' = Own ''dockerfile''"
  using detectLanguage_no_dot [of "''Makefile''"] detectLanguage_no_dot [of "''Dockerfile''"]
  by (simp add: toLowerCase_def toLowerCase_unit_def char_of_nat_bits languageMap_def)

lemma languageMap_entries:
  "list_all (\<lambda>(e, L). detectLanguage (''file.'' @ e) = Own L
               \<and> detectLanguage (''FILE.'' @ toUpperCase e) = Own L) languageMap"
  unfolding languageMap_def [THEN arg_cong, of "list_all P" for P]
  by (simp add: detect_eval)

text \<open>
  C9. For every extension token \<open>e\<close> of the extension map, with the language \<open>L\<close>,
  \<open>detectLanguage ("file." + e) = L\<close> and \<open>detectLanguage ("FILE." + uppercase e) = L\<close>:
  detection does not depend on the case of the letters, since two file names with the same
  lower-case form are detected alike.
\<close>

theorem detectLanguage_case_insensitive:
  assumes "map_of languageMap e = Some L"
  shows "detectLanguage (''file.'' @ e) = Own L
       \<and> detectLanguage (''FILE.'' @ toUpperCase e) = Own L
       \<and> (\<forall>f g. toLowerCase f = toLowerCase g \<longrightarrow> detectLanguage f = detectLanguage g)"
proof -
  have "(e, L) \<in> set languageMap"
    using assms by (rule map_of_SomeD)
  then have "detectLanguage (''file.'' @ e) = Own L
       \<and> detectLanguage (''FILE.'' @ toUpperCase e) = Own L"
    using languageMap_entries by (auto simp add: list_all_iff)
  moreover have "detectLanguage f = detectLanguage g" if "toLowerCase f = toLowerCase g" for f g
    using that by (simp add: detectLanguage_def)
  ultimately show ?thesis by blast
qed

theorem detectLanguage_case_insensitive_witness:
  "map_of languageMap ''yml'' = Some ''yaml'' \<and> detectLanguage ''file.yml'' = Own ''yaml''
   \<and> toUpperCase ''yml'' = ''YML'' \<and> detectLanguage ''FILE.YML'' = Own ''yaml''"
  using detectLanguage_case_insensitive [of "''yml''" "''yaml''"]
  by (simp add: languageMap_def toUpperCase_def toUpperCase_unit_def char_of_nat_bits)

subsection \<open>Language metadata\<close>

lemmas accessor_eval = getLanguageName_def getLanguageIcon_def getFileExtension_def
  optional_chain_def get_property_def js_get_def or_else_def

text \<open>The keys of \<^verbatim>\<open>LANGUAGE_INFO\<close> are the members of \<^verbatim>\<open>ProgrammingLanguage\<close>.\<close>

lemma LANGUAGE_INFO_keys: "map fst LANGUAGE_INFO = ProgrammingLanguage"
  by (simp add: LANGUAGE_INFO_def ProgrammingLanguage_def)

lemma LANGUAGE_INFO_unmapped:
  "raw \<notin> set ProgrammingLanguage \<Longrightarrow> js_get LANGUAGE_INFO raw = Object_prototype_get raw"
proof -
  assume "raw \<notin> set ProgrammingLanguage"
  then have "raw \<notin> fst ` set LANGUAGE_INFO"
    using LANGUAGE_INFO_keys by (metis set_map)
  then have "map_of LANGUAGE_INFO raw = None"
    by (simp add: map_of_eq_None_iff)
  then show ?thesis by (simp add: js_get_def)
qed

lemma LANGUAGE_INFO_records:
  "list_all (\<lambda>(l, r). name r \<noteq> [] \<and> extension r \<noteq> [] \<and> icon r \<noteq> []) LANGUAGE_INFO"
  by (simp add: LANGUAGE_INFO_def)

lemma LANGUAGE_INFO_mapped:
  assumes "raw \<in> set ProgrammingLanguage"
  shows "\<exists>r. js_get LANGUAGE_INFO raw = Own r
             \<and> name r \<noteq> [] \<and> extension r \<noteq> [] \<and> icon r \<noteq> []"
proof -
  have "raw \<in> fst ` set LANGUAGE_INFO"
    using assms LANGUAGE_INFO_keys by (metis set_map)
  then obtain r where r: "map_of LANGUAGE_INFO raw = Some r"
    by (metis map_of_eq_None_iff not_Some_eq)
  then have "(raw, r) \<in> set LANGUAGE_INFO"
    by (rule map_of_SomeD)
  then have "name r \<noteq> [] \<and> extension r \<noteq> [] \<and> icon r \<noteq> []"
    using LANGUAGE_INFO_records by (auto simp add: list_all_iff)
  then show ?thesis using r by (simp add: js_get_def)
qed

lemma LANGUAGE_INFO_entries:
  assumes "raw \<in> set ProgrammingLanguage"
  shows "\<exists>n i x. getLanguageName raw = Inr n \<and> n \<noteq> []
                \<and> getLanguageIcon raw = Inr i \<and> i \<noteq> []
                \<and> getFileExtension raw = Inr x \<and> x \<noteq> []"
proof -
  obtain r where "js_get LANGUAGE_INFO raw = Own r"
    and "name r \<noteq> []" and "extension r \<noteq> []" and "icon r \<noteq> []"
    using LANGUAGE_INFO_mapped[OF assms] by blast
  then show ?thesis
    by (simp add: getLanguageName_def getLanguageIcon_def getFileExtension_def
        optional_chain_def get_property_def or_else_def)
qed

lemma ProgrammingLanguage_closed:
  "length ProgrammingLanguage = 25 \<and> distinct ProgrammingLanguage"
  by (simp add: ProgrammingLanguage_def)

lemma accessors_return:
  "\<exists>n i x. getLanguageName raw = Inr n \<and> getLanguageIcon raw = Inr i \<and> getFileExtension raw = Inr x"
  by (simp add: getLanguageName_def getLanguageIcon_def getFileExtension_def
      optional_chain_def get_property_def split: js_value.splits)

text \<open>
  What holds for every input: \<open>getLanguageName\<close>, \<open>getLanguageIcon\<close> and \<open>getFileExtension\<close>
  return a string for every input string (none throws); for every language of the 25 of the
  closed set all three strings are non-empty; for a raw value outside the set
  \<open>getLanguageIcon\<close> returns "FileCode" and \<open>getFileExtension\<close> returns ".txt", and
  \<open>getLanguageName\<close> returns the value itself for every such value other than "constructor".
\<close>

lemma language_accessors:
  "(\<exists>n i x. getLanguageName raw = Inr n \<and> getLanguageIcon raw = Inr i
              \<and> getFileExtension raw = Inr x)
   \<and> length ProgrammingLanguage = 25 \<and> distinct ProgrammingLanguage
   \<and> (raw \<in> set ProgrammingLanguage \<longrightarrow>
        (\<exists>n i x. getLanguageName raw = Inr n \<and> n \<noteq> []
              \<and> getLanguageIcon raw = Inr i \<and> i \<noteq> []
              \<and> getFileExtension raw = Inr x \<and> x \<noteq> []))
   \<and> (raw \<notin> set ProgrammingLanguage \<longrightarrow>
        getLanguageIcon raw = Inr ''FileCode'' \<and> getFileExtension raw = Inr ''.txt'')
   \<and> (raw \<notin> set ProgrammingLanguage \<longrightarrow> raw \<noteq> ''constructor'' \<longrightarrow>
        getLanguageName raw = Inr raw)"
proof -
  have a: "\<exists>n i x. getLanguageName raw = Inr n \<and> n \<noteq> []
              \<and> getLanguageIcon raw = Inr i \<and> i \<noteq> []
              \<and> getFileExtension raw = Inr x \<and> x \<noteq> []"
    if "raw \<in> set ProgrammingLanguage"
    using that by (rule LANGUAGE_INFO_entries)
  have b: "getLanguageIcon raw = Inr ''FileCode'' \<and> getFileExtension raw = Inr ''.txt''"
    if "raw \<notin> set ProgrammingLanguage"
    using LANGUAGE_INFO_unmapped[OF that]
    by (simp add: getLanguageIcon_def getFileExtension_def optional_chain_def get_property_def
        or_else_def Object_prototype_get_def)
  have c: "getLanguageName raw = Inr raw"
    if "raw \<notin> set ProgrammingLanguage" and "raw \<noteq> ''constructor''"
    using LANGUAGE_INFO_unmapped[OF that(1)] that(2)
    by (simp add: getLanguageName_def optional_chain_def get_property_def
        or_else_def Object_prototype_get_def)
  from accessors_return[of raw] ProgrammingLanguage_closed a b c show ?thesis by blast
qed

lemma language_accessors_examples:
  "''markdown'' \<in> set ProgrammingLanguage
   \<and> getLanguageName ''markdown'' = Inr ''Markdown'' \<and> getLanguageIcon ''markdown'' = Inr ''FileText''
   \<and> getFileExtension ''markdown'' = Inr ''.md''
   \<and> ''cobol'' \<notin> set ProgrammingLanguage \<and> ''cobol'' \<noteq> ''constructor''
   \<and> getLanguageName ''cobol'' = Inr ''cobol'' \<and> getLanguageIcon ''cobol'' = Inr ''FileCode''
   \<and> getFileExtension ''cobol'' = Inr ''.txt''"
  using language_accessors [of "''markdown''"] language_accessors [of "''cobol''"]
  by (simp add: ProgrammingLanguage_def accessor_eval LANGUAGE_INFO_def)

text \<open>
  C10. \<open>getLanguageName\<close>, \<open>getLanguageIcon\<close> and \<open>getFileExtension\<close> never throw; for every
  language of the closed set all three return a non-empty string; for a raw value outside
  the set \<open>getLanguageName\<close> returns the value itself, \<open>getLanguageIcon\<close> returns "FileCode"
  and \<open>getFileExtension\<close> returns ".txt". The code attempts the echo with
  \<^verbatim>\<open>LANGUAGE_INFO[language]?.name || language\<close> and misses it at the raw value "constructor":
  \<^verbatim>\<open>LANGUAGE_INFO["constructor"]\<close> is the function \<^verbatim>\<open>Object\<close> that the table inherits from
  its prototype, whose \<^verbatim>\<open>name\<close> is "Object". The two sibling accessors fall back there, and
  another raw value outside the set, such as "cobol", is echoed.
\<close>

theorem getLanguageName_constructor:
  "''constructor'' \<notin> set ProgrammingLanguage
   \<and> js_get LANGUAGE_INFO ''constructor'' = Builtin ''Object''
   \<and> getLanguageName ''constructor'' = Inr ''Object''
   \<and> getLanguageName ''constructor'' \<noteq> Inr ''constructor''
   \<and> getLanguageIcon ''constructor'' = Inr ''FileCode''
   \<and> getFileExtension ''constructor'' = Inr ''.txt''
   \<and> getLanguageName ''cobol'' = Inr ''cobol''"
  by (simp add: ProgrammingLanguage_def accessor_eval LANGUAGE_INFO_def Object_prototype_get_def
      Object_prototype_methods_def)

subsection \<open>File size\<close>

text \<open>\<open>digits\<close> is the decimal notation: its characters are the digits 0 to 9, and they
  denote the number.\<close>

lemma decimal_value_digits: "decimal_value (digits n) = n"
proof (induction n rule: digits.induct)
  case (1 n)
  show ?case
  proof (cases "n < 10")
    case True
    then show ?thesis by (simp add: decimal_value_def digits.simps)
  next
    case False
    have "decimal_value (digits n) = 10 * decimal_value (digits (n div 10)) + n mod 10"
      using False by (subst digits.simps) (simp add: decimal_value_def)
    then show ?thesis using 1 False by simp
  qed
qed

lemma digits_are_digits:
  "c \<in> set (digits n) \<Longrightarrow> 48 \<le> (of_char c :: nat) \<and> (of_char c :: nat) \<le> 57"
proof (induction n rule: digits.induct)
  case (1 n)
  show ?case
  proof (cases "n < 10")
    case True
    then have "c = char_of (48 + n)" using "1.prems" by (simp add: digits.simps)
    then show ?thesis using True by simp
  next
    case False
    then have "c \<in> set (digits (n div 10)) \<or> c = char_of (48 + n mod 10)"
      using "1.prems" by (subst (asm) digits.simps) auto
    then show ?thesis
    proof
      assume "c \<in> set (digits (n div 10))"
      then show ?thesis using 1 False by simp
    next
      assume "c = char_of (48 + n mod 10)"
      then show ?thesis by simp
    qed
  qed
qed

text \<open>\<^verbatim>\<open>toFixed(1)\<close> of a non-negative quotient rounds it to one decimal place.\<close>

lemma toFixed1_one_decimal:
  assumes "0 \<le> p" and "0 < q"
  shows "toFixed1 p q = one_decimal (real_of_int p / real_of_int q)"
proof -
  define N where "N = (20 * p + q) div (2 * q)"
  have "10 * (real_of_int p / real_of_int q) + 1 / 2 =
        real_of_int (20 * p + q) / real_of_int (2 * q)"
    using assms by (simp add: field_simps)
  then have f: "\<lfloor>10 * (real_of_int p / real_of_int q) + 1 / 2\<rfloor> = N"
    unfolding N_def by (simp only: floor_divide_of_int_eq)
  have n: "0 \<le> N"
    unfolding N_def using assms by (simp add: pos_imp_zdiv_nonneg_iff)
  have d: "nat (N div 10) = nat N div 10" and m: "nat (N mod 10) = nat N mod 10"
    using n by (simp_all add: nat_div_distrib nat_mod_distrib)
  have "toFixed1 p q = digits (nat (N div 10)) @ ''.'' @ digits (nat (N mod 10))"
    using assms(1) unfolding toFixed1_def N_def Let_def by simp
  also have "\<dots> = one_decimal (real_of_int p / real_of_int q)"
    unfolding one_decimal_def f Let_def d m by simp
  finally show ?thesis .
qed

text \<open>
  C8. For every non-negative integer byte count, \<open>formatFileSize\<close> prints a count below 1024
  as the count and " B", a count below 1024 * 1024 as the count divided by 1024, rounded to
  one decimal place, and " KB", and every larger count as the count divided by 1024 * 1024,
  rounded to one decimal place, and " MB". \<open>formatFileSize 0 = "0 B"\<close>,
  \<open>formatFileSize 1024 = "1.0 KB"\<close>, \<open>formatFileSize 1536 = "1.5 KB"\<close>,
  \<open>formatFileSize 1048576 = "1.0 MB"\<close>. The integers are those that a number holds
  exactly, up to \<open>MAX_SAFE_INTEGER\<close>.
\<close>

theorem formatFileSize_classes:
  assumes "0 \<le> bytes" and "bytes \<le> MAX_SAFE_INTEGER"
  shows "(bytes < 1024 \<longrightarrow> formatFileSize bytes = digits (nat bytes) @ '' B'')
     \<and> (1024 \<le> bytes \<and> bytes < 1024 * 1024 \<longrightarrow>
          formatFileSize bytes = one_decimal (real_of_int bytes / 1024) @ '' KB'')
     \<and> (1024 * 1024 \<le> bytes \<longrightarrow>
          formatFileSize bytes = one_decimal (real_of_int bytes / (1024 * 1024)) @ '' MB'')
     \<and> formatFileSize 0 = ''0 B'' \<and> formatFileSize 1024 = ''1.0 KB''
     \<and> formatFileSize 1536 = ''1.5 KB'' \<and> formatFileSize 1048576 = ''1.0 MB''"
proof -
  have a: "formatFileSize bytes = digits (nat bytes) @ '' B''" if "bytes < 1024"
    using that assms(1) by (simp add: formatFileSize_def Number_toString_def)
  have b: "formatFileSize bytes = one_decimal (real_of_int bytes / 1024) @ '' KB''"
    if "1024 \<le> bytes \<and> bytes < 1024 * 1024"
    using that toFixed1_one_decimal[of bytes 1024] by (simp add: formatFileSize_def)
  have c: "formatFileSize bytes = one_decimal (real_of_int bytes / (1024 * 1024)) @ '' MB''"
    if "1024 * 1024 \<le> bytes"
    using that toFixed1_one_decimal[of bytes "1024 * 1024"] by (simp add: formatFileSize_def)
  have d: "formatFileSize 0 = ''0 B''"
    by (simp add: formatFileSize_def Number_toString_def digits.simps char_of_nat_bits)
  have e: "formatFileSize 1024 = ''1.0 KB''"
    by (simp add: formatFileSize_def toFixed1_def digits.simps char_of_nat_bits)
  have f: "formatFileSize 1536 = ''1.5 KB''"
    by (simp add: formatFileSize_def toFixed1_def digits.simps char_of_nat_bits)
  have g: "formatFileSize 1048576 = ''1.0 MB''"
    by (simp add: formatFileSize_def toFixed1_def digits.simps char_of_nat_bits)
  from a b c d e f g show ?thesis by blast
qed

theorem formatFileSize_classes_witness:
  "(0::int) \<le> 1280 \<and> 1280 \<le> MAX_SAFE_INTEGER \<and> (1024::int) \<le> 1280
   \<and> (1280::int) < 1024 * 1024
   \<and> formatFileSize 1280 = one_decimal (1280 / 1024) @ '' KB''
   \<and> formatFileSize 1280 = ''1.3 KB''
   \<and> formatFileSize 1023 = ''1023 B''
   \<and> formatFileSize 1048575 = ''1024.0 KB''
   \<and> formatFileSize 5000000 = ''4.8 MB''"
  using formatFileSize_classes [of 1280]
  by (simp add: MAX_SAFE_INTEGER_def formatFileSize_def toFixed1_def Number_toString_def
      digits.simps char_of_nat_bits)

subsection \<open>Line count\<close>

text \<open>
  C6. \<open>countLines\<close> is 0 for the empty string, and for a non-empty string the number of
  segments that the line feeds delimit, one more than the number of line feeds; a trailing
  line feed counts one more line: \<open>countLines "a" = 1\<close>, \<open>countLines "a\nb" = 2\<close>,
  \<open>countLines "a\n" = 2\<close>.
\<close>

theorem countLines_segments:
  "countLines src = (if src = [] then 0 else int (count_list src CHR ''\<newline>'') + 1)
   \<and> (src \<noteq> [] \<longrightarrow> countLines src = int (length (js_split CHR ''\<newline>'' src)))
   \<and> countLines [] = 0 \<and> countLines ''a'' = 1
   \<and> countLines ''a\<newline>b'' = 2 \<and> countLines ''a\<newline>'' = 2"
  by (simp add: countLines_def length_js_split)

theorem countLines_segments_witness:
  "''a\<newline>b\<newline>'' \<noteq> [] \<and> countLines ''a\<newline>b\<newline>'' = 3
   \<and> int (length (js_split CHR ''\<newline>'' ''a\<newline>b\<newline>'')) = 3"
  using countLines_segments [of "''a\<newline>b\<newline>''"] by simp

subsection \<open>Code preview\<close>

text \<open>
  C7. For a requested line count \<open>n\<close> (3 when absent), \<open>getCodePreview\<close> is the first \<open>n\<close>
  segments joined with line feeds, followed by the marker \<open>"\n..."\<close> exactly when the code has
  more than \<open>n\<close> segments; with \<open>n\<close> or fewer segments the result is the code itself, with no
  marker. \<open>getCodePreview "a\nb\nc\nd" 2 = "a\nb\n..."\<close> and \<open>getCodePreview "a\nb" 5 = "a\nb"\<close>.
  The line count is a count: \<open>n\<close> is not negative.
\<close>

theorem getCodePreview_first_lines:
  assumes "0 \<le> n"
  shows "getCodePreview src (Some n) =
           js_join ''\<newline>'' (take (nat n) (js_split CHR ''\<newline>'' src))
           @ (if int (length (js_split CHR ''\<newline>'' src)) > n then ''\<newline>...'' else [])
         \<and> (int (length (js_split CHR ''\<newline>'' src)) \<le> n \<longrightarrow> getCodePreview src (Some n) = src)
         \<and> getCodePreview src None = getCodePreview src (Some 3)
         \<and> getCodePreview ''a\<newline>b\<newline>c\<newline>d'' (Some 2) = ''a\<newline>b\<newline>...''
         \<and> getCodePreview ''a\<newline>b'' (Some 5) = ''a\<newline>b''"
proof -
  have a: "getCodePreview src (Some n) =
           js_join ''\<newline>'' (take (nat n) (js_split CHR ''\<newline>'' src))
           @ (if int (length (js_split CHR ''\<newline>'' src)) > n then ''\<newline>...'' else [])"
    using assms by (simp add: getCodePreview_def slice0_def Let_def)
  have b: "getCodePreview src (Some n) = src"
    if "int (length (js_split CHR ''\<newline>'' src)) \<le> n"
    using that js_join_js_split[of "CHR ''\<newline>''" src] by (simp add: a)
  have c: "getCodePreview src None = getCodePreview src (Some 3)"
    by (simp add: getCodePreview_def)
  have d: "getCodePreview ''a\<newline>b\<newline>c\<newline>d'' (Some 2) = ''a\<newline>b\<newline>...''"
    by (simp add: getCodePreview_def slice0_def)
  have e: "getCodePreview ''a\<newline>b'' (Some 5) = ''a\<newline>b''"
    by (simp add: getCodePreview_def slice0_def)
  from a b c d e show ?thesis by blast
qed

theorem getCodePreview_first_lines_witness:
  "(0::int) \<le> 1 \<and> getCodePreview ''x\<newline>y'' (Some 1) = ''x\<newline>...''
   \<and> getCodePreview ''x\<newline>y'' (Some 2) = ''x\<newline>y''"
  using getCodePreview_first_lines [of 1 "''x\<newline>y''"]
    getCodePreview_first_lines [of 2 "''x\<newline>y''"]
  by simp

subsection \<open>Truncation for display\<close>

text \<open>A positive number has \<open>bit_length\<close> bits: it lies between the powers of two.\<close>

lemma bit_length_bounds:
  "0 < a \<Longrightarrow> 2 ^ (bit_length a - 1) \<le> a \<and> a < 2 ^ bit_length a"
proof (induction a rule: bit_length.induct)
  case (1 n)
  show ?case
  proof (cases "n div 2 = 0")
    case True
    then have "n = 1" using "1.prems" by presburger
    then show ?thesis by (simp add: bit_length.simps)
  next
    case False
    then have ih: "2 ^ (bit_length (n div 2) - 1) \<le> n div 2 \<and> n div 2 < 2 ^ bit_length (n div 2)"
      using 1 by simp
    have pos: "0 < bit_length (n div 2)"
      using False by (subst bit_length.simps) simp
    have b: "bit_length n = Suc (bit_length (n div 2))"
      using "1.prems" by (subst bit_length.simps) simp
    have "(2::nat) ^ (bit_length n - 1) = 2 * 2 ^ (bit_length (n div 2) - 1)"
      using pos b by (cases "bit_length (n div 2)") simp_all
    moreover have "2 ^ bit_length n = 2 * (2::nat) ^ bit_length (n div 2)"
      using b by simp
    moreover have "2 * (n div 2) \<le> n" and "n < 2 * (n div 2) + 2"
      by presburger+
    ultimately show ?thesis using ih by linarith
  qed
qed

text \<open>Rounding to 53 significant bits changes a number by at most the \<open>2^53\<close>-th part of
  it.\<close>

lemma round_to_double_error:
  assumes "0 < a"
  shows "2 ^ 53 * round_to_double a \<le> (2 ^ 53 + 1) * a
       \<and> (2 ^ 53 - 1) * a \<le> 2 ^ 53 * round_to_double a"
proof (cases "bit_length a \<le> 53")
  case True
  then show ?thesis by (simp add: round_to_double_def)
next
  case False
  define s where "s = bit_length a - 53"
  define T where "T = (2::nat) ^ s"
  define q where "q = a div T"
  define r where "r = a mod T"
  have "2 ^ (bit_length a - 1) \<le> a"
    using bit_length_bounds[OF assms] by simp
  moreover have "bit_length a - 1 = 52 + s"
    using False by (simp add: s_def)
  ultimately have big: "2 ^ 52 * T \<le> a"
    by (simp add: T_def power_add)
  have Tpos: "0 < T" by (simp add: T_def)
  define X where "X = q * T"
  have a: "a = X + r" by (simp add: X_def q_def r_def)
  have r: "r < T" using Tpos by (simp add: r_def)
  have R: "round_to_double a = (if 2 * r > T \<or> (2 * r = T \<and> odd q) then q + 1 else q) * T"
    using False by (simp add: round_to_double_def Let_def s_def T_def q_def r_def)
  show ?thesis
  proof (cases "2 * r > T \<or> (2 * r = T \<and> odd q)")
    case True
    then have "round_to_double a = X + T" unfolding R X_def by (simp add: algebra_simps)
    moreover have "T \<le> 2 * r" using True by auto
    ultimately show ?thesis using a r big by simp
  next
    case False
    then have "round_to_double a = X" unfolding R X_def by auto
    moreover have "2 * r \<le> T" using False by auto
    ultimately show ?thesis using a r big by simp
  qed
qed

text \<open>The double \<^verbatim>\<open>0.7\<close> is \<open>4 / (10 * 2^53)\<close> below seven tenths. The products
  \<^verbatim>\<open>150 * 0.7\<close> and \<^verbatim>\<open>90 * 0.7\<close> are \<open>105\<close> and a double below \<open>63\<close>
  (\<^verbatim>\<open>62.99999999999999\<close>).\<close>

lemma DOUBLE_0_7_near: "10 * int DOUBLE_0_7 = 7 * 2 ^ 53 - 4"
  by (simp add: DOUBLE_0_7_def)

lemma times_0_7_150: "times_0_7 150 = 105 * 2 ^ 53"
  by (simp add: times_0_7_def round_to_double_def DOUBLE_0_7_def Let_def bit_length.simps)

lemma times_0_7_90: "times_0_7 90 < 63 * 2 ^ 53"
  by (simp add: times_0_7_def round_to_double_def DOUBLE_0_7_def Let_def bit_length.simps)

lemma times_0_7_error:
  assumes "0 < m"
  shows "2 ^ 53 * times_0_7 m \<le> (2 ^ 53 + 1) * (m * int DOUBLE_0_7)
       \<and> (2 ^ 53 - 1) * (m * int DOUBLE_0_7) \<le> 2 ^ 53 * times_0_7 m"
proof -
  define a where "a = nat m * DOUBLE_0_7"
  have "0 < a" using assms by (simp add: a_def DOUBLE_0_7_def)
  then have "2 ^ 53 * round_to_double a \<le> (2 ^ 53 + 1) * a
       \<and> (2 ^ 53 - 1) * a \<le> 2 ^ 53 * round_to_double a"
    by (rule round_to_double_error)
  then have "2 ^ 53 * int (round_to_double a) \<le> (2 ^ 53 + 1) * int a
       \<and> (2 ^ 53 - 1) * int a \<le> 2 ^ 53 * int (round_to_double a)"
    by (simp flip: of_nat_mult of_nat_le_iff)
  moreover have "int a = m * int DOUBLE_0_7" using assms by (simp add: a_def)
  moreover have "times_0_7 m = int (round_to_double a)"
    using assms by (simp add: times_0_7_def a_def)
  ultimately show ?thesis by simp
qed

text \<open>
  The comparison \<^verbatim>\<open>p > m * 0.7\<close> of the code against the comparison of \<open>p\<close> with seven
  tenths of \<open>m\<close>: they agree unless \<open>p\<close> is exactly seven tenths of \<open>m\<close>, where the code
  compares with the rounded product.
\<close>

lemma gt_times_0_7_iff:
  assumes "0 < m" and "m \<le> 2 ^ 49"
  shows "gt_times_0_7 p m \<longleftrightarrow>
           7 * m < 10 * p \<or> (10 * p = 7 * m \<and> 10 * times_0_7 m < 7 * m * 2 ^ 53)"
proof -
  define R where "R = times_0_7 m"
  have e: "9007199254740992 * R \<le> 9007199254740993 * (m * 6305039478318694)"
    "9007199254740991 * (m * 6305039478318694) \<le> 9007199254740992 * R"
    using times_0_7_error[OF assms(1)] by (simp_all add: R_def DOUBLE_0_7_def)
  have m: "m \<le> 562949953421312" using assms(2) by simp
  have g: "gt_times_0_7 p m \<longleftrightarrow> R < p * 9007199254740992"
    by (simp add: gt_times_0_7_def R_def)
  consider "7 * m < 10 * p" | "10 * p = 7 * m" | "10 * p < 7 * m" by linarith
  then show ?thesis
  proof cases
    case 1
    then have "R < p * 9007199254740992" using e m assms(1) by linarith
    then show ?thesis using 1 g by simp
  next
    case 2
    then have "R < p * 9007199254740992 \<longleftrightarrow> 10 * R < 7 * m * 9007199254740992"
      by linarith
    then show ?thesis using 2 g by (simp add: R_def)
  next
    case 3
    then have "\<not> R < p * 9007199254740992" using e m assms(1) by linarith
    then show ?thesis using 3 g by simp
  qed
qed


text \<open>\<open>lastIndexOf\<close> is the offset of the last occurrence.\<close>

lemma lastIndexOf_ge: "- 1 \<le> lastIndexOf s c"
  by (induction s) (simp_all add: Let_def)

lemma lastIndexOf_less: "lastIndexOf s c < int (length s)"
  by (induction s) (simp_all add: Let_def)

lemma lastIndexOf_bounds: "- 1 \<le> lastIndexOf s c \<and> lastIndexOf s c < int (length s)"
  by (simp add: lastIndexOf_ge lastIndexOf_less)

lemma lastIndexOf_none: "lastIndexOf s c < 0 \<longleftrightarrow> c \<notin> set s"
proof (induction s)
  case Nil
  show ?case by simp
next
  case (Cons x xs)
  then show ?case using lastIndexOf_ge[of xs c] by (auto simp add: Let_def)
qed

lemma lastIndexOf_append: "c \<notin> set ys \<Longrightarrow> lastIndexOf (xs @ c # ys) c = int (length xs)"
proof (induction xs)
  case Nil
  then show ?case using lastIndexOf_none[of ys c] by (simp add: Let_def)
next
  case (Cons x xs)
  then show ?case by (simp add: Let_def)
qed

lemma lastIndexOf_last:
  assumes "c \<in> set s"
  shows "s ! nat (lastIndexOf s c) = c \<and> c \<notin> set (drop (nat (lastIndexOf s c) + 1) s)"
proof -
  obtain xs ys where s: "s = xs @ c # ys" and n: "c \<notin> set ys"
    using assms by (meson split_list_last)
  then have "lastIndexOf s c = int (length xs)"
    by (simp add: lastIndexOf_append)
  then show ?thesis using s n by simp
qed

text \<open>The function of the specification, on integers.\<close>

lemma gt_seven_tenths: "real_of_int p > 0.7 * real_of_int m \<longleftrightarrow> 7 * m < 10 * p"
proof -
  have "real_of_int p > 0.7 * real_of_int m \<longleftrightarrow> real_of_int (7 * m) < real_of_int (10 * p)"
    by (simp add: field_simps)
  then show ?thesis by (simp only: of_int_less_iff)
qed

lemma formatForDisplay_spec_int:
  "formatForDisplay_spec src m =
     (if int (length src) \<le> m then src
      else if 7 * m < 10 * lastIndexOf (take (nat m) src) CHR ''\<newline>''
           then take (nat (lastIndexOf (take (nat m) src) CHR ''\<newline>'')) src @ ''\<newline>...''
           else take (nat m) src @ ''...'')"
  by (simp add: formatForDisplay_spec_def Let_def gt_seven_tenths)

text \<open>The function of the code, with the comparison of doubles resolved.\<close>

lemma formatForDisplay_Some:
  assumes "0 < m" and "m \<le> 2 ^ 49"
  shows "formatForDisplay src (Some m) =
     (if int (length src) \<le> m then src
      else let t = take (nat m) src; p = lastIndexOf t CHR ''\<newline>''
           in if 7 * m < 10 * p \<or> (10 * p = 7 * m \<and> 10 * times_0_7 m < 7 * m * 2 ^ 53)
              then take (nat p) src @ ''\<newline>...''
              else t @ ''...'')"
proof -
  define p where "p = lastIndexOf (take (nat m) src) CHR ''\<newline>''"
  define clean where
    "clean \<longleftrightarrow> 7 * m < 10 * p \<or> (10 * p = 7 * m \<and> 10 * times_0_7 m < 7 * m * 2 ^ 53)"
  have g: "gt_times_0_7 p m = clean"
    unfolding clean_def by (rule gt_times_0_7_iff[OF assms])
  have "p < int (length (take (nat m) src))"
    unfolding p_def by (rule lastIndexOf_less)
  then have "nat p \<le> nat m" by simp
  then have mn: "min (nat p) (nat m) = nat p"
    by simp
  have "formatForDisplay src (Some m) =
     (if int (length src) \<le> m then src
      else if clean then take (nat p) src @ ''\<newline>...'' else take (nat m) src @ ''...'')"
    by (simp add: formatForDisplay_def substring0_def Let_def p_def
        g[unfolded p_def] mn[unfolded p_def])
  then show ?thesis
    unfolding Let_def p_def[symmetric] clean_def .
qed

text \<open>
  C5, as the specification states it: with \<open>t\<close> the first \<open>maxLength\<close> characters and \<open>p\<close> the
  offset of the last line feed in \<open>t\<close>, the result is the first \<open>p\<close> characters and \<open>"\n..."\<close>
  if \<open>p > 0.7 * maxLength\<close>, and \<open>t\<close> and \<open>"..."\<close> otherwise. For \<open>maxLength = 90\<close> and a code of 94
  characters whose line feed is at offset 63, \<open>63 > 0.7 * 90\<close> is false, yet the code breaks
  at the line feed: it compares with the double \<^verbatim>\<open>90 * 0.7 = 62.99999999999999\<close>.
\<close>

theorem formatForDisplay_threshold_counterexample:
  "formatForDisplay (replicate 63 CHR ''a'' @ ''\<newline>'' @ replicate 30 CHR ''b'') (Some 90)
     = replicate 63 CHR ''a'' @ ''\<newline>...''
   \<and> formatForDisplay_spec (replicate 63 CHR ''a'' @ ''\<newline>'' @ replicate 30 CHR ''b'') 90
     = replicate 63 CHR ''a'' @ ''\<newline>'' @ replicate 26 CHR ''b'' @ ''...''
   \<and> lastIndexOf (take 90 (replicate 63 CHR ''a'' @ ''\<newline>'' @ replicate 30 CHR ''b'')) CHR ''\<newline>'' = 63
   \<and> \<not> (real_of_int 63 > 0.7 * real_of_int 90)"
proof -
  have t: "take 90 (replicate 63 CHR ''a'' @ ''\<newline>'' @ replicate 30 CHR ''b'')
      = replicate 63 CHR ''a'' @ CHR ''\<newline>'' # replicate 26 CHR ''b''"
    by simp
  have l: "lastIndexOf (replicate 63 CHR ''a'' @ CHR ''\<newline>'' # replicate 26 CHR ''b'') CHR ''\<newline>'' = 63"
    by (subst lastIndexOf_append) simp_all
  have g: "gt_times_0_7 63 90"
    using times_0_7_90 by (simp add: gt_times_0_7_def)
  have a: "formatForDisplay (replicate 63 CHR ''a'' @ ''\<newline>'' @ replicate 30 CHR ''b'') (Some 90)
     = replicate 63 CHR ''a'' @ ''\<newline>...''"
    by (simp add: formatForDisplay_def substring0_def Let_def l g)
  have b: "formatForDisplay_spec (replicate 63 CHR ''a'' @ ''\<newline>'' @ replicate 30 CHR ''b'') 90
     = replicate 63 CHR ''a'' @ ''\<newline>'' @ replicate 26 CHR ''b'' @ ''...''"
    by (simp add: formatForDisplay_spec_int l)
  show ?thesis using a b l t by simp
qed

text \<open>
  C5, amended: for every code and every integer \<open>maxLength\<close> from 1 to \<open>2^49\<close> (150 when
  absent): a code of at most \<open>maxLength\<close> characters is returned unchanged; otherwise, with
  \<open>t\<close> the first \<open>maxLength\<close> characters and \<open>p\<close> the offset of the last line feed in \<open>t\<close>
  (\<open>-1\<close> when there is none), the result is the first \<open>p\<close> characters of the code and
  \<open>"\n..."\<close> if \<open>p\<close> is more than seven tenths of \<open>maxLength\<close>, or is exactly seven tenths of
  it and the double product \<^verbatim>\<open>maxLength * 0.7\<close> is rounded below that; and \<open>t\<close> and \<open>"..."\<close>
  otherwise. So the code does what the specification says whenever \<open>p\<close> is not exactly seven
  tenths of \<open>maxLength\<close>, and for the default \<open>maxLength\<close> of 150 always.
\<close>

theorem formatForDisplay_threshold:
  assumes "0 < maxLength" and "maxLength \<le> 2 ^ 49"
  shows "formatForDisplay src (Some maxLength) =
     (if int (length src) \<le> maxLength then src
      else let t = take (nat maxLength) src; p = lastIndexOf t CHR ''\<newline>''
           in if 7 * maxLength < 10 * p
                 \<or> (10 * p = 7 * maxLength \<and> 10 * times_0_7 maxLength < 7 * maxLength * 2 ^ 53)
              then take (nat p) src @ ''\<newline>...''
              else t @ ''...'')
   \<and> (10 * lastIndexOf (take (nat maxLength) src) CHR ''\<newline>'' \<noteq> 7 * maxLength \<longrightarrow>
        formatForDisplay src (Some maxLength) = formatForDisplay_spec src maxLength)
   \<and> formatForDisplay src None = formatForDisplay src (Some 150)
   \<and> formatForDisplay src None = formatForDisplay_spec src 150"
proof -
  have a: "formatForDisplay src (Some maxLength) = formatForDisplay_spec src maxLength"
    if "10 * lastIndexOf (take (nat maxLength) src) CHR ''\<newline>'' \<noteq> 7 * maxLength"
    using that by (simp add: formatForDisplay_Some[OF assms] formatForDisplay_spec_int Let_def)
  have b: "formatForDisplay src None = formatForDisplay src (Some 150)"
    by (simp add: formatForDisplay_def PREVIEW_LENGTH_def)
  have "formatForDisplay src (Some 150) = formatForDisplay_spec src 150"
    by (simp add: formatForDisplay_Some formatForDisplay_spec_int Let_def times_0_7_150)
  then have c: "formatForDisplay src None = formatForDisplay_spec src 150"
    using b by simp
  from formatForDisplay_Some[OF assms, of src] a b c show ?thesis by blast
qed

theorem formatForDisplay_threshold_witness:
  "(0::int) < 10 \<and> (10::int) \<le> 2 ^ 49
   \<and> formatForDisplay ''abcdefg\<newline>ijklmn'' (Some 10) = ''abcdefg\<newline>ij...''
   \<and> lastIndexOf (take 10 ''abcdefgh\<newline>jklmn'') CHR ''\<newline>'' = 8
   \<and> formatForDisplay ''abcdefgh\<newline>jklmn'' (Some 10) = ''abcdefgh\<newline>...''
   \<and> formatForDisplay_spec ''abcdefgh\<newline>jklmn'' 10 = ''abcdefgh\<newline>...''
   \<and> formatForDisplay ''abcdefgh\<newline>j'' (Some 10) = ''abcdefgh\<newline>j''"
  using formatForDisplay_threshold [of 10 "''abcdefg\<newline>ijklmn''"]
    formatForDisplay_threshold [of 10 "''abcdefgh\<newline>jklmn''"]
    formatForDisplay_threshold [of 10 "''abcdefgh\<newline>j''"]
  by (simp add: Let_def times_0_7_def round_to_double_def DOUBLE_0_7_def bit_length.simps
      formatForDisplay_spec_int)

subsection \<open>Snippet validation\<close>

lemma dropWhile_all_iff: "(\<forall>c\<in>set (dropWhile P s). P c) \<longleftrightarrow> (\<forall>c\<in>set s. P c)"
  by (induction s) auto

lemma trim_eq_Nil_iff: "trim s = [] \<longleftrightarrow> (\<forall>c\<in>set s. isWhiteSpace c)"
proof -
  have "trim s = [] \<longleftrightarrow> (\<forall>c\<in>set (dropWhile isWhiteSpace s). isWhiteSpace c)"
    by (simp add: trim_def dropWhile_eq_Nil_conv)
  then show ?thesis by (simp add: dropWhile_all_iff)
qed

lemma formatFileSize_MAX_CODE_LENGTH: "formatFileSize MAX_CODE_LENGTH = ''48.8 KB''"
  by (simp add: MAX_CODE_LENGTH_def formatFileSize_def toFixed1_def digits.simps char_of_nat_bits)

lemma validateSnippet_errors:
  "errors (validateSnippet s) =
     (if (case title s of None \<Rightarrow> True | Some t \<Rightarrow> trim t = [])
      then [''Title is required''] else [])
     @ (if (case code s of None \<Rightarrow> True | Some c \<Rightarrow> trim c = [])
        then [''Code is required''] else [])
     @ (if (case code s of None \<Rightarrow> False | Some c \<Rightarrow> 50000 < length c)
        then [''Code exceeds maximum length of 48.8 KB''] else [])"
  by (auto simp add: validateSnippet_def
      formatFileSize_MAX_CODE_LENGTH [unfolded MAX_CODE_LENGTH_def]
      or_else_def isValidLength_def MAX_CODE_LENGTH_def split: option.splits)

lemma validateSnippet_valid: "valid (validateSnippet s) = (errors (validateSnippet s) = [])"
  by (simp add: validateSnippet_def Let_def)

lemma validation_eqI: "valid v = a \<Longrightarrow> errors v = b \<Longrightarrow> v = \<lparr>valid = a, errors = b\<rparr>"
  by (cases v) simp

text \<open>
  C2. \<open>validateSnippet\<close> makes three checks and collects the message of every one that fails,
  in the order title, code presence, code length: the title is absent or blank after
  trimming; the code is absent or blank after trimming; the code is present and longer than
  50,000 characters. \<open>valid\<close> holds exactly when no message was collected.
  \<open>validateSnippet {}\<close> is not valid, with the messages "Title is required" and "Code is
  required" in that order, and \<open>validateSnippet {title: "x", code: "y"}\<close> is valid with no
  message.
\<close>

theorem validateSnippet_accumulates:
  "errors (validateSnippet s) =
     (if (case title s of None \<Rightarrow> True | Some t \<Rightarrow> trim t = [])
      then [''Title is required''] else [])
     @ (if (case code s of None \<Rightarrow> True | Some c \<Rightarrow> trim c = [])
        then [''Code is required''] else [])
     @ (if (case code s of None \<Rightarrow> False | Some c \<Rightarrow> 50000 < length c)
        then [''Code exceeds maximum length of 48.8 KB''] else [])
   \<and> valid (validateSnippet s) = (errors (validateSnippet s) = [])
   \<and> validateSnippet empty_snippet =
       \<lparr>valid = False, errors = [''Title is required'', ''Code is required'']\<rparr>
   \<and> validateSnippet (empty_snippet\<lparr>title := Some ''x'', code := Some ''y''\<rparr>) =
       \<lparr>valid = True, errors = []\<rparr>"
proof -
  have a: "validateSnippet empty_snippet =
       \<lparr>valid = False, errors = [''Title is required'', ''Code is required'']\<rparr>"
    by (simp add: validateSnippet_def empty_snippet_def or_else_def)
  have b: "validateSnippet (empty_snippet\<lparr>title := Some ''x'', code := Some ''y''\<rparr>) =
       \<lparr>valid = True, errors = []\<rparr>"
    by (simp add: validateSnippet_def empty_snippet_def or_else_def trim_def isWhiteSpace_def
        isValidLength_def MAX_CODE_LENGTH_def)
  show ?thesis
    using validateSnippet_errors[of s] validateSnippet_valid[of s] a b by blast
qed

text \<open>
  C3, as the specification states it: for every code of exactly 50,001 characters,
  \<open>validateSnippet {title: "x", code}\<close> has exactly one message. A code of 50,001 spaces is
  blank after trimming as well as too long, and has two.
\<close>

theorem validateSnippet_oversized_blank_counterexample:
  "length (replicate 50001 CHR '' '') = 50001
   \<and> errors (validateSnippet
        (empty_snippet\<lparr>title := Some ''x'', code := Some (replicate 50001 CHR '' '')\<rparr>))
       = [''Code is required'', ''Code exceeds maximum length of 48.8 KB'']
   \<and> length (errors (validateSnippet
        (empty_snippet\<lparr>title := Some ''x'', code := Some (replicate 50001 CHR '' '')\<rparr>))) = 2"
  by (simp add: validateSnippet_errors trim_eq_Nil_iff trim_def isWhiteSpace_def)

text \<open>
  C3, amended: for every code of exactly 50,001 characters that is not blank after trimming,
  \<open>validateSnippet {title: "x", code}\<close> is not valid and has exactly one message, which holds
  the maximum size as \<open>formatFileSize 50000\<close> prints it: "Code exceeds maximum length of
  48.8 KB".
\<close>

theorem validateSnippet_oversized:
  assumes "length c = 50001" and "trim c \<noteq> []"
  shows "validateSnippet (empty_snippet\<lparr>title := Some ''x'', code := Some c\<rparr>) =
           \<lparr>valid = False, errors = [''Code exceeds maximum length of 48.8 KB'']\<rparr>
         \<and> ''Code exceeds maximum length of 48.8 KB'' =
             ''Code exceeds maximum length of '' @ formatFileSize 50000"
proof -
  have "trim ''x'' \<noteq> []" by (simp add: trim_def isWhiteSpace_def)
  then have "errors (validateSnippet (empty_snippet\<lparr>title := Some ''x'', code := Some c\<rparr>)) =
      [''Code exceeds maximum length of 48.8 KB'']"
    using assms by (simp add: validateSnippet_errors)
  then have "validateSnippet (empty_snippet\<lparr>title := Some ''x'', code := Some c\<rparr>) =
           \<lparr>valid = False, errors = [''Code exceeds maximum length of 48.8 KB'']\<rparr>"
    by (intro validation_eqI) (simp_all add: validateSnippet_valid)
  then show ?thesis
    using formatFileSize_MAX_CODE_LENGTH by (simp add: MAX_CODE_LENGTH_def)
qed

theorem validateSnippet_oversized_witness:
  "length (replicate 50001 CHR ''a'') = 50001 \<and> trim (replicate 50001 CHR ''a'') \<noteq> []
   \<and> validateSnippet
        (empty_snippet\<lparr>title := Some ''x'', code := Some (replicate 50001 CHR ''a'')\<rparr>) =
       \<lparr>valid = False, errors = [''Code exceeds maximum length of 48.8 KB'']\<rparr>"
  using validateSnippet_oversized [of "replicate 50001 CHR ''a''"]
  by (simp add: trim_eq_Nil_iff isWhiteSpace_def)

text \<open>
  C4. For every snippet whose title is not blank and whose code is white space only and
  longer than 50,000 characters, \<open>validateSnippet\<close> is not valid and has exactly two
  messages, "Code is required" and then the message of the length check: the length check
  asks for a non-empty code before trimming, so it does not depend on the check for a blank
  code.
\<close>

theorem validateSnippet_blank_oversized:
  assumes "title s = Some t" and "trim t \<noteq> []"
    and "code s = Some c" and "\<forall>ch\<in>set c. isWhiteSpace ch" and "50000 < length c"
  shows "validateSnippet s =
           \<lparr>valid = False,
            errors = [''Code is required'', ''Code exceeds maximum length of 48.8 KB'']\<rparr>"
proof -
  have "trim c = []" using assms(4) by (simp add: trim_eq_Nil_iff)
  then have e: "errors (validateSnippet s) =
      [''Code is required'', ''Code exceeds maximum length of 48.8 KB'']"
    using assms by (simp add: validateSnippet_errors)
  then show ?thesis by (intro validation_eqI) (simp_all add: validateSnippet_valid)
qed

theorem validateSnippet_blank_oversized_witness:
  "title (empty_snippet\<lparr>title := Some ''x'', code := Some (replicate 50001 CHR 0x09)\<rparr>)
     = Some ''x''
   \<and> trim ''x'' \<noteq> []
   \<and> code (empty_snippet\<lparr>title := Some ''x'', code := Some (replicate 50001 CHR 0x09)\<rparr>)
     = Some (replicate 50001 CHR 0x09)
   \<and> isWhiteSpace (CHR 0x09)
   \<and> 50000 < length (replicate 50001 (CHR 0x09))
   \<and> validateSnippet
         (empty_snippet\<lparr>title := Some ''x'', code := Some (replicate 50001 CHR 0x09)\<rparr>) =
       \<lparr>valid = False,
        errors = [''Code is required'', ''Code exceeds maximum length of 48.8 KB'']\<rparr>"
  using validateSnippet_blank_oversized
    [of "empty_snippet\<lparr>title := Some ''x'', code := Some (replicate 50001 CHR 0x09)\<rparr>"
        "''x''" "replicate 50001 CHR 0x09"]
  by (simp add: trim_def isWhiteSpace_def empty_snippet_def)

end
